theory Spec2Isabelle
  imports Complex_Main "HOL-Library.Sublist"
begin

section \<open>Python values and exceptions\<close>

text \<open>
  The values \<open>json.loads\<close> can give. A dictionary is kept as the list of its items, in
  order, with distinct keys; a string is the list of its characters.
\<close>

datatype pyval =
    PNone
  | PBool bool
  | PNum real
  | PStr string
  | PList "pyval list"
  | PDict "(string \<times> pyval) list"

text \<open>
  The exceptions the two modules can raise. \<open>KeyError\<close> carries the missing key,
  \<open>RuntimeError\<close> its message;
  \<open>Propagated\<close> stands for an exception of a library call that the code does not catch
  and that therefore leaves the function unchanged.
\<close>

datatype error =
    IndexError
  | KeyError pyval
  | ZeroDivisionError
  | TypeError
  | AttributeError
  | RuntimeError string
  | Propagated string

definition bind :: "error + 'a \<Rightarrow> ('a \<Rightarrow> error + 'b) \<Rightarrow> error + 'b" where
  "bind m f = (case m of Inl e \<Rightarrow> Inl e | Inr x \<Rightarrow> f x)"

text \<open>
  \<open>xs[i]\<close> on a Python list: a negative index counts from the end, an index outside
  the list raises \<open>IndexError\<close>.
\<close>

definition getitem :: "'a list \<Rightarrow> int \<Rightarrow> error + 'a" where
  "getitem xs i =
     (let n = int (length xs);
          j = (if i < 0 then i + n else i)
      in if j < 0 \<or> n \<le> j then Inl IndexError else Inr (xs ! nat j))"

text \<open>
  \<open>xs[a:b]\<close> on a Python list: negative bounds count from the end, and both bounds are
  clamped to the list, so a slice never raises.
\<close>

definition py_slice :: "'a list \<Rightarrow> int \<Rightarrow> int \<Rightarrow> 'a list" where
  "py_slice xs a b =
     (let n = int (length xs);
          lo = (if a < 0 then max 0 (a + n) else min a n);
          hi = (if b < 0 then max 0 (b + n) else min b n)
      in drop (nat lo) (take (nat hi) xs))"

text \<open>\<open>sum\<close> over a list of booleans: \<open>True\<close> counts 1, \<open>False\<close> counts 0.\<close>

definition py_sum :: "bool list \<Rightarrow> int" where
  "py_sum bs = sum_list (map (\<lambda>b. if b then 1 else 0) bs)"

text \<open>\<open>range(n)\<close>.\<close>

definition py_range :: "nat \<Rightarrow> int list" where
  "py_range n = map int [0..<n]"

section \<open>disposition\_checker.py: check\_disposition\<close>

text \<open>
  The test of line 92, \<open>i >= 2 and flags[i] and flags[i-1] and flags[i-2]\<close>, with
  Python's left-to-right short circuit: a flag is read only when everything before it
  was true.
\<close>

definition consecutive3 :: "bool list \<Rightarrow> int \<Rightarrow> error + bool" where
  "consecutive3 flags i =
     (if 2 \<le> i then
        bind (getitem flags i) (\<lambda>f0.
          if f0 then
            bind (getitem flags (i - 1)) (\<lambda>f1.
              if f1 then getitem flags (i - 2) else Inr False)
          else Inr False)
      else Inr False)"

text \<open>
  The body of the \<open>for i in range(n)\<close> loop, run over the remaining indices;
  \<open>days\<close> is \<open>disposition_days\<close>. Each \<open>continue\<close> is a recursive call on the
  remaining indices.
\<close>

fun disposition_loop :: "'d list \<Rightarrow> bool list \<Rightarrow> int list \<Rightarrow> 'd list \<Rightarrow> error + 'd list" where
  "disposition_loop dates flags [] days = Inr days"
| "disposition_loop dates flags (i # rest) days =
     (case consecutive3 flags i of
        Inl e \<Rightarrow> Inl e
      | Inr True \<Rightarrow>
          (case getitem dates i of
             Inl e \<Rightarrow> Inl e
           | Inr d \<Rightarrow> disposition_loop dates flags rest (days @ [d]))
      | Inr False \<Rightarrow>
          (let start10 = max 0 (i - 9);
               last10 = py_sum (py_slice flags start10 (i + 1))
           in if 6 \<le> last10 then
                (case getitem dates i of
                   Inl e \<Rightarrow> Inl e
                 | Inr d \<Rightarrow> disposition_loop dates flags rest (days @ [d]))
              else
                (let start30 = max 0 (i - 29);
                     last30 = py_sum (py_slice flags start30 (i + 1))
                 in if 12 \<le> last30 then
                      (case getitem dates i of
                         Inl e \<Rightarrow> Inl e
                       | Inr d \<Rightarrow> disposition_loop dates flags rest (days @ [d]))
                    else disposition_loop dates flags rest days)))"

definition check_disposition :: "'d list \<Rightarrow> bool list \<Rightarrow> error + 'd list" where
  "check_disposition dates flags =
     (let n = length dates
      in disposition_loop dates flags (py_range n) [])"

subsection \<open>The three rules as the specification words them\<close>

text \<open>Rule A: three consecutive flagged days ending at index \<open>i\<close>.\<close>

definition rule_A :: "bool list \<Rightarrow> nat \<Rightarrow> bool" where
  "rule_A flags i = (2 \<le> i \<and> flags ! i \<and> flags ! (i - 1) \<and> flags ! (i - 2))"

text \<open>The count of true flags in the inclusive window \<open>[lo, hi]\<close> of indices.\<close>

definition window_count :: "bool list \<Rightarrow> nat \<Rightarrow> nat \<Rightarrow> nat" where
  "window_count flags lo hi = length (filter (\<lambda>j. flags ! j) [lo..<Suc hi])"

text \<open>Rule B: at least 6 flagged days in the window \<open>[max(0, i-9), i]\<close>.\<close>

definition rule_B :: "bool list \<Rightarrow> nat \<Rightarrow> bool" where
  "rule_B flags i = (6 \<le> window_count flags (nat (max 0 (int i - 9))) i)"

text \<open>Rule C: at least 12 flagged days in the window \<open>[max(0, i-29), i]\<close>.\<close>

definition rule_C :: "bool list \<Rightarrow> nat \<Rightarrow> bool" where
  "rule_C flags i = (12 \<le> window_count flags (nat (max 0 (int i - 29))) i)"

definition triggers :: "bool list \<Rightarrow> nat \<Rightarrow> bool" where
  "triggers flags i = (rule_A flags i \<or> rule_B flags i \<or> rule_C flags i)"

section \<open>disposition\_checker.py: compute\_metrics\<close>

text \<open>
  A row is the dictionary that \<open>parse_row\<close> builds: the date and ten numbers, always
  present. The five keys that \<open>compute_metrics\<close> adds are absent (\<open>None\<close>) until
  \<open>row.update\<close> sets them. The date is the day's ordinal. A Python float is modelled by
  the real number it denotes: rounding, infinities and NaN are outside this model, and the
  divisors below are raw fields, so whether a division raises does not depend on rounding.
\<close>

record daily_row =
  date :: int
  "open" :: real
  high :: real
  low :: real
  close :: real
  volume :: real
  idx_open :: real
  idx_high :: real
  idx_low :: real
  idx_close :: real
  outstanding :: real
  amplitude :: "real option"
  amplitude_diff :: "real option"
  price_change :: "real option"
  price_diff :: "real option"
  turnover :: "real option"

text \<open>
  \<open>rows\<close> is a Python list of references to dictionaries, and \<open>row.update\<close> changes
  the dictionary a reference points to. The store maps each reference to its dictionary.
\<close>

type_synonym ref = nat
type_synonym heap = "ref \<Rightarrow> daily_row"

text \<open>\<open>a / b\<close> on floats raises \<open>ZeroDivisionError\<close> when \<open>b\<close> is zero.\<close>

definition truediv :: "real \<Rightarrow> real \<Rightarrow> error + real" where
  "truediv a b = (if b = 0 then Inl ZeroDivisionError else Inr (a / b))"

text \<open>
  Lines 55 to 60: the pair \<open>(price_change, idx_price_change)\<close>. The test is on
  \<open>prev_close\<close> alone; subtracting \<open>None\<close> from a float is a \<open>TypeError\<close>.
\<close>

definition price_changes :: "daily_row \<Rightarrow> real option \<Rightarrow> real option \<Rightarrow> error + real \<times> real" where
  "price_changes row prev_close prev_idx_close =
     (case prev_close of
        None \<Rightarrow> Inr (0, 0)
      | Some pc \<Rightarrow>
          bind (truediv (close row - pc) pc) (\<lambda>q.
            let price_change = q * 100
            in case prev_idx_close of
                 None \<Rightarrow> Inl TypeError
               | Some pic \<Rightarrow>
                   bind (truediv (idx_close row - pic) pic) (\<lambda>qi.
                     Inr (price_change, qi * 100))))"

text \<open>Lines 51 to 71: one pass of the loop body, giving the updated dictionary.\<close>

definition metrics_step :: "daily_row \<Rightarrow> real option \<Rightarrow> real option \<Rightarrow> error + daily_row" where
  "metrics_step row prev_close prev_idx_close =
     bind (truediv (high row - low row) (low row)) (\<lambda>q.
       let amplitude' = q * 100
       in bind (truediv (idx_high row - idx_low row) (idx_low row)) (\<lambda>qi.
         let idx_amplitude = qi * 100;
             amplitude_diff' = amplitude' - idx_amplitude
         in bind (price_changes row prev_close prev_idx_close) (\<lambda>(price_change', idx_price_change).
           let price_diff' = price_change' - idx_price_change
           in bind (truediv (volume row) (outstanding row)) (\<lambda>qt.
             let turnover' = qt * 100
             in Inr (row\<lparr>amplitude := Some amplitude',
                         amplitude_diff := Some amplitude_diff',
                         price_change := Some price_change',
                         price_diff := Some price_diff',
                         turnover := Some turnover'\<rparr>)))))"

text \<open>
  The \<open>for row in rows\<close> loop. An exception leaves the loop with the store as it is at
  that moment: the rows before the failing one stay updated.
\<close>

fun compute_metrics_loop :: "heap \<Rightarrow> real option \<Rightarrow> real option \<Rightarrow> ref list \<Rightarrow> heap \<times> (error + unit)" where
  "compute_metrics_loop h prev_close prev_idx_close [] = (h, Inr ())"
| "compute_metrics_loop h prev_close prev_idx_close (r # rest) =
     (case metrics_step (h r) prev_close prev_idx_close of
        Inl e \<Rightarrow> (h, Inl e)
      | Inr row' \<Rightarrow>
          compute_metrics_loop (h(r := row')) (Some (close row')) (Some (idx_close row')) rest)"

text \<open>\<open>compute_metrics\<close> has no \<open>return\<close>: its value is \<open>None\<close>, here the unit.\<close>

definition compute_metrics :: "heap \<Rightarrow> ref list \<Rightarrow> heap \<times> (error + unit)" where
  "compute_metrics h rows = compute_metrics_loop h None None rows"

section \<open>disposition\_checker.py: flag\_unusual\<close>

text \<open>\<open>row[k]\<close> for one of the five derived keys: \<open>KeyError\<close> when it was never set.\<close>

definition derived :: "string \<Rightarrow> real option \<Rightarrow> error + real" where
  "derived k v = (case v of None \<Rightarrow> Inl (KeyError (PStr k)) | Some x \<Rightarrow> Inr x)"

text \<open>Lines 80 to 82, each \<open>and\<close> reading its right operand only when the left is true.\<close>

definition cond1 :: "daily_row \<Rightarrow> error + bool" where
  "cond1 row =
     bind (derived ''amplitude'' (amplitude row)) (\<lambda>a.
       if a > 9 then
         bind (derived ''amplitude_diff'' (amplitude_diff row)) (\<lambda>d.
           if d > 5 then Inr (volume row \<ge> 3000) else Inr False)
       else Inr False)"

definition cond2 :: "daily_row \<Rightarrow> error + bool" where
  "cond2 row =
     bind (derived ''price_change'' (price_change row)) (\<lambda>c.
       if c > 6 then
         bind (derived ''price_diff'' (price_diff row)) (\<lambda>d.
           if d > 4 then Inr (volume row \<ge> 3000) else Inr False)
       else Inr False)"

definition cond3 :: "daily_row \<Rightarrow> error + bool" where
  "cond3 row =
     bind (derived ''turnover'' (turnover row)) (\<lambda>t.
       if t > 10 then Inr (volume row \<ge> 3000) else Inr False)"

definition flagged :: "daily_row \<Rightarrow> error + bool" where
  "flagged row =
     bind (cond1 row) (\<lambda>c1.
       bind (cond2 row) (\<lambda>c2.
         bind (cond3 row) (\<lambda>c3.
           Inr (c1 \<or> c2 \<or> c3))))"

fun flag_loop :: "heap \<Rightarrow> ref list \<Rightarrow> bool list \<Rightarrow> error + bool list" where
  "flag_loop h [] flags = Inr flags"
| "flag_loop h (r # rest) flags =
     (case flagged (h r) of
        Inl e \<Rightarrow> Inl e
      | Inr f \<Rightarrow> flag_loop h rest (flags @ [f]))"

definition flag_unusual :: "heap \<Rightarrow> ref list \<Rightarrow> error + bool list" where
  "flag_unusual h rows = flag_loop h rows []"

subsection \<open>The flag of a day as the specification words it\<close>

definition has_metrics :: "daily_row \<Rightarrow> bool" where
  "has_metrics row =
     (amplitude row \<noteq> None \<and> amplitude_diff row \<noteq> None \<and> price_change row \<noteq> None \<and>
      price_diff row \<noteq> None \<and> turnover row \<noteq> None)"

definition unusual :: "daily_row \<Rightarrow> bool" where
  "unusual row =
     ((the (amplitude row) > 9 \<and> the (amplitude_diff row) > 5 \<and> volume row \<ge> 3000) \<or>
      (the (price_change row) > 6 \<and> the (price_diff row) > 4 \<and> volume row \<ge> 3000) \<or>
      (the (turnover row) > 10 \<and> volume row \<ge> 3000))"

text \<open>Two rows agree on every field that \<open>parse_row\<close> sets.\<close>

definition same_raw :: "daily_row \<Rightarrow> daily_row \<Rightarrow> bool" where
  "same_raw a b =
     (date a = date b \<and> open a = open b \<and> high a = high b \<and> low a = low b \<and>
      close a = close b \<and> volume a = volume b \<and> idx_open a = idx_open b \<and>
      idx_high a = idx_high b \<and> idx_low a = idx_low b \<and> idx_close a = idx_close b \<and>
      outstanding a = outstanding b)"

subsection \<open>Where a division of compute\_metrics has a zero divisor\<close>

text \<open>
  The divisors of one pass of the loop body are \<open>low\<close>, \<open>idx_low\<close>, \<open>prev_close\<close>,
  \<open>prev_idx_close\<close> and \<open>outstanding\<close>.
\<close>

definition zero_divisor :: "daily_row \<Rightarrow> real option \<Rightarrow> real option \<Rightarrow> bool" where
  "zero_divisor row prev_close prev_idx_close =
     (low row = 0 \<or> idx_low row = 0 \<or> outstanding row = 0 \<or>
      prev_close = Some 0 \<or> prev_idx_close = Some 0)"

text \<open>
  The same for row \<open>i\<close> of the list, reached with the given values of \<open>prev_close\<close>
  and \<open>prev_idx_close\<close> at the start of the loop.
\<close>

definition zero_divisor_at :: "heap \<Rightarrow> real option \<Rightarrow> real option \<Rightarrow> ref list \<Rightarrow> nat \<Rightarrow> bool" where
  "zero_divisor_at h prev_close prev_idx_close rows i =
     zero_divisor (h (rows ! i))
       (if i = 0 then prev_close else Some (close (h (rows ! (i - 1)))))
       (if i = 0 then prev_idx_close else Some (idx_close (h (rows ! (i - 1)))))"

text \<open>
  Row \<open>i\<close> has \<open>low = 0\<close>, \<open>idx_low = 0\<close> or \<open>outstanding = 0\<close>, or it has a
  predecessor whose \<open>close\<close> or \<open>idx_close\<close> is 0.
\<close>

definition divisor_is_zero :: "heap \<Rightarrow> ref list \<Rightarrow> nat \<Rightarrow> bool" where
  "divisor_is_zero h rows i =
     (low (h (rows ! i)) = 0 \<or> idx_low (h (rows ! i)) = 0 \<or> outstanding (h (rows ! i)) = 0 \<or>
      (0 < i \<and> (close (h (rows ! (i - 1))) = 0 \<or> idx_close (h (rows ! (i - 1))) = 0)))"

section \<open>limit\_up\_tw.py: fetch\_limit\_up\<close>

text \<open>
  What the \<open>with request.urlopen(url)\<close> block of lines 24 and 25 can do: raise
  \<open>urllib.error.URLError\<close> (or a subclass) that prints as the given text, raise another
  exception, or bind \<open>content\<close> to the decoded body.
\<close>

datatype fetched = URLError string | Raised string | Content string

text \<open>
  Everything outside the program that \<open>fetch_limit_up\<close> reads: today's date already
  formatted as \<open>%Y%m%d\<close>, the network, the JSON parser, and \<open>str\<close> as an f-string
  applies it.
\<close>

record world =
  today :: string
  urlopen :: "string \<Rightarrow> fetched"
  loads :: "string \<Rightarrow> error + pyval"
  str :: "pyval \<Rightarrow> string"

definition limit_up_url :: "string \<Rightarrow> string" where
  "limit_up_url d = ''https://www.twse.com.tw/exchangeReport/TWT43U?response=json&date='' @ d"

text \<open>\<open>v.get(k, default)\<close>: only a dictionary has the method.\<close>

definition py_get :: "pyval \<Rightarrow> string \<Rightarrow> pyval \<Rightarrow> error + pyval" where
  "py_get v k dflt =
     (case v of
        PDict items \<Rightarrow> Inr (case map_of items k of None \<Rightarrow> dflt | Some x \<Rightarrow> x)
      | _ \<Rightarrow> Inl AttributeError)"

text \<open>The elements a \<open>for\<close> loop draws from a value: a dictionary gives its keys.\<close>

definition py_iter :: "pyval \<Rightarrow> error + pyval list" where
  "py_iter v =
     (case v of
        PList xs \<Rightarrow> Inr xs
      | PStr cs \<Rightarrow> Inr (map (\<lambda>c. PStr [c]) cs)
      | PDict items \<Rightarrow> Inr (map (\<lambda>kv. PStr (fst kv)) items)
      | _ \<Rightarrow> Inl TypeError)"

definition py_len :: "pyval \<Rightarrow> error + int" where
  "py_len v =
     (case v of
        PList xs \<Rightarrow> Inr (int (length xs))
      | PStr cs \<Rightarrow> Inr (int (length cs))
      | PDict items \<Rightarrow> Inr (int (length items))
      | _ \<Rightarrow> Inl TypeError)"

text \<open>\<open>v[i]\<close> for an integer \<open>i\<close>; a dictionary from JSON has string keys only.\<close>

definition py_item :: "pyval \<Rightarrow> int \<Rightarrow> error + pyval" where
  "py_item v i =
     (case v of
        PList xs \<Rightarrow> getitem xs i
      | PStr cs \<Rightarrow> bind (getitem cs i) (\<lambda>c. Inr (PStr [c]))
      | PDict items \<Rightarrow> Inl (KeyError (PNum (real_of_int i)))
      | _ \<Rightarrow> Inl TypeError)"

record stock =
  stock_no :: pyval
  stock_name :: pyval

text \<open>Lines 34 to 36 of limit\_up\_tw.py.\<close>

fun collect_rows :: "pyval list \<Rightarrow> stock list \<Rightarrow> error + stock list" where
  "collect_rows [] result = Inr result"
| "collect_rows (row # rest) result =
     (case py_len row of
        Inl e \<Rightarrow> Inl e
      | Inr n \<Rightarrow>
          if 2 \<le> n then
            (case py_item row 0 of
               Inl e \<Rightarrow> Inl e
             | Inr no \<Rightarrow>
                 (case py_item row 1 of
                    Inl e \<Rightarrow> Inl e
                  | Inr name \<Rightarrow>
                      collect_rows rest (result @ [\<lparr>stock_no = no, stock_name = name\<rparr>])))
          else collect_rows rest result)"

text \<open>
  \<open>date_arg\<close> is the parameter \<open>date\<close>, \<open>None\<close> when the caller leaves it out.
\<close>

definition fetch_limit_up :: "world \<Rightarrow> string option \<Rightarrow> error + stock list" where
  "fetch_limit_up w date_arg =
     (let date' = (case date_arg of None \<Rightarrow> today w | Some d \<Rightarrow> d);
          url = limit_up_url date'
      in case urlopen w url of
           URLError e \<Rightarrow> Inl (RuntimeError (''Failed to fetch data: '' @ e))
         | Raised x \<Rightarrow> Inl (Propagated x)
         | Content content \<Rightarrow>
             bind (loads w content) (\<lambda>data.
               bind (py_get data ''stat'' PNone) (\<lambda>stat.
                 if stat \<noteq> PStr ''OK'' then
                   bind (py_get data ''stat'' PNone) (\<lambda>stat'.
                     Inl (RuntimeError (''API error: '' @ str w stat')))
                 else
                   bind (py_get data ''data'' (PList [])) (\<lambda>rows.
                     bind (py_iter rows) (\<lambda>rs. collect_rows rs [])))))"

section \<open>Inputs used in examples\<close>

text \<open>The three flag sequences of the scenarios.\<close>

definition flags_three_then_quiet :: "bool list" where
  "flags_three_then_quiet =
     [True, True, True, False, False, False, False, False, False, False]"

definition flags_alternating :: "bool list" where
  "flags_alternating =
     [True, False, True, False, True, False, True, False, True, False, True]"

definition flags_six_then_false :: "bool list" where
  "flags_six_then_false = [True, True, True, True, True, True, False]"

text \<open>
  Two trading days, a store holding them, and stores whose rows have a negative or a
  zero divisor.
\<close>

definition day1 :: daily_row where
  "day1 = \<lparr>date = 1, open = 95, high = 100, low = 90, close = 100, volume = 5000,
           idx_open = 1000, idx_high = 1010, idx_low = 1000, idx_close = 1005,
           outstanding = 20000, amplitude = None, amplitude_diff = None,
           price_change = None, price_diff = None, turnover = None\<rparr>"

definition day2 :: daily_row where
  "day2 = day1\<lparr>date := 2, open := 100, high := 108, low := 100, close := 106\<rparr>"

definition example_heap :: heap where
  "example_heap = (\<lambda>r. day2)(0 := day1)"

definition negative_low_heap :: heap where
  "negative_low_heap = (\<lambda>r. day1\<lparr>high := 10, low := - 5\<rparr>)"

definition negative_idx_low_heap :: heap where
  "negative_idx_low_heap = (\<lambda>r. day1\<lparr>idx_high := 10, idx_low := - 5\<rparr>)"

definition negative_shares_heap :: heap where
  "negative_shares_heap = (\<lambda>r. day1\<lparr>outstanding := - 20000\<rparr>)"

definition zero_shares_heap :: heap where
  "zero_shares_heap = (\<lambda>r. day1\<lparr>outstanding := 0\<rparr>)"

text \<open>
  Two rows that carry their metrics: one sits exactly on the thresholds 9, 6 and 10 with
  a large volume, the other is above the amplitude thresholds with a volume of exactly
  3000.
\<close>

definition boundary_day :: daily_row where
  "boundary_day = day1\<lparr>volume := 1000000, amplitude := Some 9, amplitude_diff := Some 8,
     price_change := Some 6, price_diff := Some 6, turnover := Some 10\<rparr>"

definition floor_day :: daily_row where
  "floor_day = day1\<lparr>volume := 3000, amplitude := Some 10, amplitude_diff := Some 6,
     price_change := Some 0, price_diff := Some 0, turnover := Some 1\<rparr>"

definition metrics_heap :: heap where
  "metrics_heap = (\<lambda>r. floor_day)(0 := boundary_day)"

text \<open>
  A world without a network, and one where the exchange answers that it has no data for
  the day.
\<close>

definition offline_world :: world where
  "offline_world = \<lparr>today = ''20240102'',
     urlopen = (\<lambda>url. URLError ''<urlopen error timed out>''),
     loads = (\<lambda>content. Inr PNone),
     str = (\<lambda>v. case v of PStr s \<Rightarrow> s | _ \<Rightarrow> ''None'')\<rparr>"

definition holiday_world :: world where
  "holiday_world = offline_world\<lparr>
     urlopen := (\<lambda>url. if url = limit_up_url ''20240101'' then Content ''payload'' else Raised ''ValueError''),
     loads := (\<lambda>content. Inr (PDict [(''stat'', PStr ''No data'')]))\<rparr>"

text \<open>
  A world where the connection is reset while the body is read: the \<open>with\<close> block
  raises \<open>ConnectionResetError\<close>, which is not a \<open>URLError\<close>.
\<close>

definition reset_world :: world where
  "reset_world = offline_world\<lparr>urlopen := (\<lambda>url. Raised ''ConnectionResetError'')\<rparr>"

section \<open>Properties of check\_disposition\<close>

lemma getitem_nat: "i < length xs \<Longrightarrow> getitem xs (int i) = Inr (xs ! i)"
  by (simp add: getitem_def)

lemma consecutive3_rule_A:
  assumes "i < length flags"
  shows "consecutive3 flags (int i) = Inr (rule_A flags i)"
proof (cases "2 \<le> i")
  case False
  then show ?thesis by (simp add: consecutive3_def rule_A_def)
next
  case True
  with assms have g1: "getitem flags (int i - 1) = Inr (flags ! (i - 1))"
    using getitem_nat[of "i - 1" flags] by simp
  from True assms have g2: "getitem flags (int i - 2) = Inr (flags ! (i - 2))"
    using getitem_nat[of "i - 2" flags] by simp
  show ?thesis
    using True by (simp add: consecutive3_def getitem_nat[OF assms] g1 g2 bind_def rule_A_def)
qed

lemma py_sum_map: "py_sum (map f js) = int (length (filter f js))"
  by (induction js) (simp_all add: py_sum_def)

lemma slice_upt:
  assumes "lo \<le> Suc i" "i < length xs"
  shows "py_slice xs (int lo) (int i + 1) = map ((!) xs) [lo..<Suc i]"
proof -
  have t: "take (Suc i) xs = map ((!) xs) [0..<Suc i]"
    using assms(2) by (metis Suc_leI map_nth take_map take_upt plus_nat.add_0)
  have "py_slice xs (int lo) (int i + 1) = drop lo (take (Suc i) xs)"
    using assms by (simp add: py_slice_def min_def nat_add_distrib)
  also have "\<dots> = map ((!) xs) [lo..<Suc i]"
    unfolding t by (simp add: drop_map)
  finally show ?thesis .
qed

lemma window_sum:
  assumes "i < length flags"
  shows "py_sum (py_slice flags (max 0 (int i - int k)) (int i + 1))
         = int (window_count flags (nat (max 0 (int i - int k))) i)"
proof -
  define lo where "lo = nat (max 0 (int i - int k))"
  have lo: "max 0 (int i - int k) = int lo" "lo \<le> Suc i"
    by (simp_all add: lo_def)
  show ?thesis
    unfolding lo(1) using slice_upt[OF lo(2) assms]
    by (simp add: py_sum_map window_count_def lo_def)
qed

lemma disposition_loop_char:
  assumes "length dates = length flags"
  shows "k \<le> length dates \<Longrightarrow>
     disposition_loop dates flags (map int [k..<length dates]) days
       = Inr (days @ map ((!) dates) (filter (triggers flags) [k..<length dates]))"
proof (induction "length dates - k" arbitrary: k days)
  case 0
  then show ?case by simp
next
  case (Suc m)
  then have k: "k < length dates" by simp
  then have kf: "k < length flags" using assms by simp
  have up: "[k..<length dates] = k # [Suc k..<length dates]"
    using k by (rule upt_conv_Cons)
  have m: "m = length dates - Suc k" using Suc.hyps(2) by simp
  have sk: "Suc k \<le> length dates" using k by simp
  note IH = Suc.hyps(1)[OF m sk]
  have w10: "py_sum (py_slice flags (max 0 (int k - 9)) (int k + 1))
         = int (window_count flags (nat (max 0 (int k - 9))) k)"
    using window_sum[OF kf, of 9] by simp
  have w30: "py_sum (py_slice flags (max 0 (int k - 29)) (int k + 1))
         = int (window_count flags (nat (max 0 (int k - 29))) k)"
    using window_sum[OF kf, of 29] by simp
  show ?case
    unfolding up
    by (simp add: consecutive3_rule_A[OF kf] getitem_nat[OF k] IH w10 w30
        triggers_def rule_B_def rule_C_def Let_def del: upt_Suc split: bool.splits)
qed

lemma check_disposition_char:
  assumes "length dates = length flags"
  shows "check_disposition dates flags
       = Inr (map ((!) dates) (filter (triggers flags) [0..<length dates]))"
  using disposition_loop_char[OF assms, of 0 "[]"]
  by (simp add: check_disposition_def py_range_def)

lemma sorted_wrt_subseq: "subseq xs ys \<Longrightarrow> sorted_wrt R ys \<Longrightarrow> sorted_wrt R xs"
  by (induction rule: list_emb.induct) (auto elim: list_emb_set)

lemma subseq_map_filter_nth: "subseq (map ((!) xs) (filter P [0..<length xs])) xs"
proof -
  have "subseq (map ((!) xs) (filter P [0..<length xs])) (map ((!) xs) [0..<length xs])"
    by (rule subseq_map) simp
  then show ?thesis by (simp add: map_nth)
qed

text \<open>
  C1. When \<open>dates\<close> and \<open>flags\<close> have the same length, \<open>check_disposition\<close> returns
  normally, and its result is the dates, in order, of exactly the indices \<open>i\<close> at which
  Rule A, Rule B or Rule C holds; the windows of Rules B and C start at \<open>max(0, i-9)\<close>
  and \<open>max(0, i-29)\<close>, so an early day is judged on the shorter window it has.
\<close>

theorem check_disposition_iff_rules:
  assumes "length dates = length flags"
  shows "check_disposition dates flags
       = Inr (map ((!) dates) (filter (triggers flags) [0..<length dates]))"
  using assms by (rule check_disposition_char)

theorem check_disposition_iff_rules_witness:
  "length [10, 20, 30, 40 :: nat] = length [True, True, True, False] \<and>
   check_disposition [10, 20, 30, 40 :: nat] [True, True, True, False] = Inr [30]"
proof -
  have h: "length [10, 20, 30, 40 :: nat] = length [True, True, True, False]" by simp
  have r: "map ((!) [10, 20, 30, 40 :: nat])
             (filter (triggers [True, True, True, False]) [0..<length [10, 20, 30, 40 :: nat]]) = [30]"
    by (simp add: triggers_def rule_A_def rule_B_def rule_C_def window_count_def upt_rec nth_Cons')
  show ?thesis
    using check_disposition_iff_rules[OF h] h unfolding r by blast
qed

text \<open>
  C5. When the dates are strictly ascending (hence unique) and there is one flag per
  date, the result of \<open>check_disposition\<close> is a subsequence of the dates, strictly
  increasing, free of duplicates, and made of input dates only.
\<close>

theorem check_disposition_subsequence:
  assumes "sorted_wrt (<) (dates :: 'd :: linorder list)" "length dates = length flags"
  shows "\<exists>days. check_disposition dates flags = Inr days \<and> subseq days dates \<and>
           sorted_wrt (<) days \<and> distinct days \<and> set days \<subseteq> set dates"
proof -
  define days where "days = map ((!) dates) (filter (triggers flags) [0..<length dates])"
  have r: "check_disposition dates flags = Inr days"
    unfolding days_def using assms(2) by (rule check_disposition_char)
  have s: "subseq days dates"
    unfolding days_def by (rule subseq_map_filter_nth)
  have o: "sorted_wrt (<) days"
    using s assms(1) by (rule sorted_wrt_subseq)
  have d: "distinct days"
    using o by (simp add: strict_sorted_iff)
  have m: "set days \<subseteq> set dates"
    using s by (auto elim: list_emb_set)
  from r s o d m show ?thesis by blast
qed

theorem check_disposition_subsequence_witness:
  "sorted_wrt (<) [1, 2, 3, 4 :: nat] \<and>
   length [1, 2, 3, 4 :: nat] = length [True, True, True, True] \<and>
   (\<exists>days. check_disposition [1, 2, 3, 4 :: nat] [True, True, True, True] = Inr days \<and>
      subseq days [1, 2, 3, 4] \<and> sorted_wrt (<) days \<and> distinct days \<and>
      set days \<subseteq> set [1, 2, 3, 4])"
proof -
  have h1: "sorted_wrt (<) [1, 2, 3, 4 :: nat]" by simp
  have h2: "length [1, 2, 3, 4 :: nat] = length [True, True, True, True]" by simp
  from check_disposition_subsequence[OF h1 h2] h1 h2 show ?thesis by blast
qed

lemmas run_disposition = check_disposition_def py_range_def upt_rec consecutive3_def
  getitem_def bind_def py_slice_def py_sum_def

lemmas rule_defs = triggers_def rule_A_def rule_B_def rule_C_def window_count_def upt_rec
  nth_Cons'

text \<open>
  C8. On the ten flags T,T,T,F,F,F,F,F,F,F with dates \<open>d0\<close> to \<open>d9\<close> the result is
  \<open>[d2]\<close>. Rule A holds at index 2 only, Rules B and C hold nowhere, and the sums
  \<open>last10\<close> and \<open>last30\<close> that the function computes at the ten indices never
  exceed 3.
\<close>

theorem scenario_three_then_quiet:
  "check_disposition [d0, d1, d2, d3, d4, d5, d6, d7, d8, d9] flags_three_then_quiet = Inr [d2]
   \<and> filter (rule_A flags_three_then_quiet) [0..<10] = [2]
   \<and> filter (rule_B flags_three_then_quiet) [0..<10] = []
   \<and> filter (rule_C flags_three_then_quiet) [0..<10] = []
   \<and> map (\<lambda>i. py_sum (py_slice flags_three_then_quiet (max 0 (i - 9)) (i + 1))) (py_range 10)
       = [1, 2, 3, 3, 3, 3, 3, 3, 3, 3]
   \<and> map (\<lambda>i. py_sum (py_slice flags_three_then_quiet (max 0 (i - 29)) (i + 1))) (py_range 10)
       = [1, 2, 3, 3, 3, 3, 3, 3, 3, 3]"
proof -
  have "check_disposition [d0, d1, d2, d3, d4, d5, d6, d7, d8, d9] flags_three_then_quiet
          = Inr [d2]"
    by (simp add: flags_three_then_quiet_def run_disposition)
  moreover have "filter (rule_A flags_three_then_quiet) [0..<10] = [2]
       \<and> filter (rule_B flags_three_then_quiet) [0..<10] = []
       \<and> filter (rule_C flags_three_then_quiet) [0..<10] = []"
    by (simp add: flags_three_then_quiet_def rule_defs)
  moreover have
    "map (\<lambda>i. py_sum (py_slice flags_three_then_quiet (max 0 (i - 9)) (i + 1))) (py_range 10)
       = [1, 2, 3, 3, 3, 3, 3, 3, 3, 3]"
    "map (\<lambda>i. py_sum (py_slice flags_three_then_quiet (max 0 (i - 29)) (i + 1))) (py_range 10)
       = [1, 2, 3, 3, 3, 3, 3, 3, 3, 3]"
    by (simp_all add: flags_three_then_quiet_def run_disposition)
  ultimately show ?thesis by blast
qed

text \<open>
  C9. On the eleven alternating flags T,F,T,F,T,F,T,F,T,F,T the result is empty: no
  rule holds at any index. The window of index 9 is 0 to 9 and holds 5 true flags, the
  window of index 10 is 1 to 10 and holds 5 true flags; these are the sums \<open>last10\<close>
  that the function computes there.
\<close>

theorem scenario_alternating:
  "check_disposition [d0, d1, d2, d3, d4, d5, d6, d7, d8, d9, d10] flags_alternating = Inr []
   \<and> filter (triggers flags_alternating) [0..<11] = []
   \<and> window_count flags_alternating 0 9 = 5
   \<and> window_count flags_alternating 1 10 = 5
   \<and> max 0 (9 - 9) = (0 :: int)
   \<and> py_sum (py_slice flags_alternating 0 (9 + 1)) = 5
   \<and> max 0 (10 - 9) = (1 :: int)
   \<and> py_sum (py_slice flags_alternating 1 (10 + 1)) = 5"
proof -
  have "check_disposition [d0, d1, d2, d3, d4, d5, d6, d7, d8, d9, d10] flags_alternating
          = Inr []"
    by (simp add: flags_alternating_def run_disposition)
  moreover have "filter (triggers flags_alternating) [0..<11] = []
       \<and> window_count flags_alternating 0 9 = 5
       \<and> window_count flags_alternating 1 10 = 5"
    by (simp add: flags_alternating_def rule_defs)
  moreover have "py_sum (py_slice flags_alternating 0 (9 + 1)) = 5"
    "py_sum (py_slice flags_alternating 1 (10 + 1)) = 5"
    by (simp_all add: flags_alternating_def run_disposition)
  ultimately show ?thesis by simp
qed

text \<open>
  C10. A day whose own flag is false can be emitted: on six true flags followed by a
  false one, index 6 is not flagged and Rule A fails there, but its window 0 to 6 holds
  6 true flags, so Rule B holds and its date \<open>d6\<close> is in the result.
\<close>

theorem unflagged_day_can_trigger:
  "check_disposition [d0, d1, d2, d3, d4, d5, d6] flags_six_then_false
     = Inr [d2, d3, d4, d5, d6]
   \<and> getitem flags_six_then_false 6 = Inr False
   \<and> consecutive3 flags_six_then_false 6 = Inr False
   \<and> py_sum (py_slice flags_six_then_false (max 0 (6 - 9)) (6 + 1)) = 6
   \<and> rule_B flags_six_then_false 6"
proof -
  have "check_disposition [d0, d1, d2, d3, d4, d5, d6] flags_six_then_false
          = Inr [d2, d3, d4, d5, d6]"
    by (simp add: flags_six_then_false_def run_disposition)
  moreover have "getitem flags_six_then_false 6 = Inr False"
    "consecutive3 flags_six_then_false 6 = Inr False"
    "py_sum (py_slice flags_six_then_false (max 0 (6 - 9)) (6 + 1)) = 6"
    by (simp_all add: flags_six_then_false_def run_disposition)
  moreover have "rule_B flags_six_then_false 6"
    by (simp add: flags_six_then_false_def rule_defs)
  ultimately show ?thesis by simp
qed

section \<open>Properties of compute\_metrics\<close>

lemma price_changes_first: "price_changes row None pic = Inr (0, 0)"
  by (simp add: price_changes_def)

lemma metrics_step_zero:
  assumes "(pc = None) = (pic = None)" "zero_divisor row pc pic"
  shows "metrics_step row pc pic = Inl ZeroDivisionError"
  using assms
  by (cases pc; cases pic)
     (auto simp: metrics_step_def price_changes_def truediv_def bind_def zero_divisor_def Let_def)

lemma metrics_step_ok:
  assumes "(pc = None) = (pic = None)" "\<not> zero_divisor row pc pic"
  shows "\<exists>row'. metrics_step row pc pic = Inr row'"
  using assms
  by (cases pc; cases pic)
     (auto simp: metrics_step_def price_changes_def truediv_def bind_def zero_divisor_def Let_def)

lemma metrics_step_same_raw:
  assumes "metrics_step row pc pic = Inr row'"
  shows "same_raw row' row" and "has_metrics row'"
  using assms
  by (auto simp: metrics_step_def price_changes_def truediv_def bind_def Let_def same_raw_def
      has_metrics_def split: if_splits option.splits)


lemma same_raw_refl: "same_raw a a"
  by (simp add: same_raw_def)

lemma same_raw_trans: "same_raw a b \<Longrightarrow> same_raw b c \<Longrightarrow> same_raw a c"
  by (simp add: same_raw_def)

lemma loop_step:
  "metrics_step (h r) pc pic = Inr row' \<Longrightarrow>
   compute_metrics_loop h pc pic (r # rest)
     = compute_metrics_loop (h(r := row')) (Some (close row')) (Some (idx_close row')) rest"
  by simp

lemma loop_stop:
  "metrics_step (h r) pc pic = Inl e \<Longrightarrow> compute_metrics_loop h pc pic (r # rest) = (h, Inl e)"
  by simp

lemma loop_same_raw: "same_raw (fst (compute_metrics_loop h pc pic rows) x) (h x)"
proof (induction rows arbitrary: h pc pic)
  case Nil
  show ?case by (simp add: same_raw_refl)
next
  case (Cons r rest)
  show ?case
  proof (cases "metrics_step (h r) pc pic")
    case (Inl e)
    show ?thesis unfolding loop_stop[where h=h and r=r, OF Inl] by (simp add: same_raw_refl)
  next
    case (Inr row')
    let ?h = "h(r := row')"
    have a: "same_raw (fst (compute_metrics_loop ?h (Some (close row')) (Some (idx_close row')) rest) x) (?h x)"
      by (rule Cons.IH)
    have b: "same_raw (?h x) (h x)"
      using metrics_step_same_raw(1)[OF Inr] by (simp add: same_raw_refl)
    show ?thesis unfolding loop_step[where h=h and r=r, OF Inr] using a b by (rule same_raw_trans)
  qed
qed

lemma loop_frame: "x \<notin> set rows \<Longrightarrow> fst (compute_metrics_loop h pc pic rows) x = h x"
proof (induction rows arbitrary: h pc pic)
  case Nil
  show ?case by simp
next
  case (Cons r rest)
  then have x: "x \<noteq> r" "x \<notin> set rest" by auto
  show ?case
  proof (cases "metrics_step (h r) pc pic")
    case (Inl e)
    show ?thesis unfolding loop_stop[where h=h and r=r, OF Inl] by simp
  next
    case (Inr row')
    let ?h = "h(r := row')"
    have "fst (compute_metrics_loop ?h (Some (close row')) (Some (idx_close row')) rest) x = ?h x"
      using x(2) by (rule Cons.IH)
    also have "?h x = h x" using x(1) by simp
    finally show ?thesis unfolding loop_step[where h=h and r=r, OF Inr] .
  qed
qed

lemma loop_keeps_metrics:
  "has_metrics (h x) \<Longrightarrow> has_metrics (fst (compute_metrics_loop h pc pic rows) x)"
proof (induction rows arbitrary: h pc pic)
  case Nil
  then show ?case by simp
next
  case (Cons r rest)
  show ?case
  proof (cases "metrics_step (h r) pc pic")
    case (Inl e)
    show ?thesis unfolding loop_stop[where h=h and r=r, OF Inl] using Cons.prems by simp
  next
    case (Inr row')
    let ?h = "h(r := row')"
    have hm: "has_metrics (?h x)"
      using metrics_step_same_raw(2)[OF Inr] Cons.prems by simp
    have "has_metrics (fst (compute_metrics_loop ?h (Some (close row')) (Some (idx_close row')) rest) x)"
      using hm by (rule Cons.IH)
    then show ?thesis unfolding loop_step[where h=h and r=r, OF Inr] .
  qed
qed

lemma loop_sets_metrics:
  "snd (compute_metrics_loop h pc pic rows) = Inr () \<Longrightarrow> x \<in> set rows \<Longrightarrow>
   has_metrics (fst (compute_metrics_loop h pc pic rows) x)"
proof (induction rows arbitrary: h pc pic)
  case Nil
  then show ?case by simp
next
  case (Cons r rest)
  show ?case
  proof (cases "metrics_step (h r) pc pic")
    case (Inl e)
    show ?thesis using Cons.prems(1) unfolding loop_stop[where h=h and r=r, OF Inl] by simp
  next
    case (Inr row')
    let ?h = "h(r := row')"
    let ?res = "compute_metrics_loop ?h (Some (close row')) (Some (idx_close row')) rest"
    have ok: "snd ?res = Inr ()"
      using Cons.prems(1) unfolding loop_step[where h=h and r=r, OF Inr] .
    have "has_metrics (fst ?res x)"
    proof (cases "x \<in> set rest")
      case True
      with ok show ?thesis by (rule Cons.IH)
    next
      case False
      then have "x = r" using Cons.prems(2) by simp
      then have "has_metrics (?h x)" using metrics_step_same_raw(2)[OF Inr] by simp
      then show ?thesis by (rule loop_keeps_metrics)
    qed
    then show ?thesis unfolding loop_step[where h=h and r=r, OF Inr] .
  qed
qed

lemma zero_divisor_at_raw:
  assumes "\<And>x. same_raw (h' x) (h x)"
  shows "zero_divisor_at h' pc pic rows i = zero_divisor_at h pc pic rows i"
proof -
  have a: "same_raw (h' (rows ! i)) (h (rows ! i))" by (rule assms)
  have b: "same_raw (h' (rows ! (i - 1))) (h (rows ! (i - 1)))" by (rule assms)
  show ?thesis using a b by (simp add: zero_divisor_at_def zero_divisor_def same_raw_def)
qed

lemma loop_result:
  assumes "(pc = None) = (pic = None)"
  shows "snd (compute_metrics_loop h pc pic rows)
       = (if \<exists>i<length rows. zero_divisor_at h pc pic rows i then Inl ZeroDivisionError else Inr ())"
  using assms
proof (induction rows arbitrary: h pc pic)
  case Nil
  show ?case by simp
next
  case (Cons r rest)
  show ?case
  proof (cases "zero_divisor (h r) pc pic")
    case True
    then have "zero_divisor_at h pc pic (r # rest) 0" by (simp add: zero_divisor_at_def)
    then have "\<exists>i<length (r # rest). zero_divisor_at h pc pic (r # rest) i" by auto
    moreover have "snd (compute_metrics_loop h pc pic (r # rest)) = Inl ZeroDivisionError"
      unfolding loop_stop[where h=h and r=r, OF metrics_step_zero[OF Cons.prems True]] by simp
    ultimately show ?thesis by simp
  next
    case False
    from metrics_step_ok[OF Cons.prems False] obtain row' where
      st: "metrics_step (h r) pc pic = Inr row'" by blast
    let ?h = "h(r := row')"
    let ?pc = "Some (close row')" and ?pic = "Some (idx_close row')"
    have raw: "same_raw row' (h r)" using metrics_step_same_raw(1)[OF st] .
    have raws: "\<And>x. same_raw (?h x) (h x)" using raw by (simp add: same_raw_refl)
    have eq: "snd (compute_metrics_loop h pc pic (r # rest))
            = snd (compute_metrics_loop ?h ?pc ?pic rest)"
      unfolding loop_step[where h=h and r=r, OF st] ..
    have IH: "snd (compute_metrics_loop ?h ?pc ?pic rest)
       = (if \<exists>i<length rest. zero_divisor_at ?h ?pc ?pic rest i then Inl ZeroDivisionError else Inr ())"
      by (rule Cons.IH) simp
    have shift: "zero_divisor_at h pc pic (r # rest) (Suc j) = zero_divisor_at ?h ?pc ?pic rest j" for j
    proof -
      have "zero_divisor_at ?h ?pc ?pic rest j = zero_divisor_at h ?pc ?pic rest j"
        using raws by (rule zero_divisor_at_raw)
      also have "\<dots> = zero_divisor_at h pc pic (r # rest) (Suc j)"
        using raw by (cases j) (simp_all add: zero_divisor_at_def same_raw_def)
      finally show ?thesis by simp
    qed
    have n0: "\<not> zero_divisor_at h pc pic (r # rest) 0"
      using False by (simp add: zero_divisor_at_def)
    have ex: "(\<exists>i<length (r # rest). zero_divisor_at h pc pic (r # rest) i)
            = (\<exists>j<length rest. zero_divisor_at ?h ?pc ?pic rest j)"
    proof
      assume "\<exists>i<length (r # rest). zero_divisor_at h pc pic (r # rest) i"
      then obtain i where i: "i < length (r # rest)" "zero_divisor_at h pc pic (r # rest) i" by blast
      with n0 obtain j where j: "i = Suc j" by (cases i) auto
      with i shift[of j] show "\<exists>j<length rest. zero_divisor_at ?h ?pc ?pic rest j" by auto
    next
      assume "\<exists>j<length rest. zero_divisor_at ?h ?pc ?pic rest j"
      then obtain j where "j < length rest" "zero_divisor_at ?h ?pc ?pic rest j" by blast
      with shift[of j] have "Suc j < length (r # rest) \<and> zero_divisor_at h pc pic (r # rest) (Suc j)"
        by simp
      then show "\<exists>i<length (r # rest). zero_divisor_at h pc pic (r # rest) i" by blast
    qed
    show ?thesis unfolding eq IH ex ..
  qed
qed

lemma divisor_is_zero_at: "divisor_is_zero h rows i = zero_divisor_at h None None rows i"
  by (auto simp: divisor_is_zero_def zero_divisor_at_def zero_divisor_def)

lemma compute_metrics_result:
  "snd (compute_metrics h rows)
     = (if \<exists>i<length rows. divisor_is_zero h rows i then Inl ZeroDivisionError else Inr ())"
  unfolding compute_metrics_def divisor_is_zero_at by (rule loop_result) simp

lemmas run_defs = compute_metrics_def metrics_step_def price_changes_def truediv_def bind_def
  Let_def

text \<open>
  C3, as the code has it. \<open>compute_metrics\<close> raises exactly when a divisor is zero,
  and the exception is \<open>ZeroDivisionError\<close>: some row has \<open>low = 0\<close>, \<open>idx_low = 0\<close>
  or \<open>outstanding = 0\<close>, or a row with a successor has \<open>close = 0\<close> or
  \<open>idx_close = 0\<close>. In particular \<open>outstanding = 0\<close> raises. Otherwise it returns
  normally, so a negative \<open>low\<close>, \<open>idx_low\<close> or \<open>outstanding\<close> raises nothing.
\<close>

theorem compute_metrics_zero_divisor:
  "snd (compute_metrics h rows)
     = (if \<exists>i<length rows. divisor_is_zero h rows i then Inl ZeroDivisionError else Inr ())"
  by (rule compute_metrics_result)

theorem compute_metrics_zero_divisor_witness:
  "outstanding (zero_shares_heap 0) = 0 \<and>
   snd (compute_metrics zero_shares_heap [0]) = Inl ZeroDivisionError"
proof -
  have z: "outstanding (zero_shares_heap 0) = 0" by (simp add: zero_shares_heap_def)
  then have "divisor_is_zero zero_shares_heap [0] 0" by (simp add: divisor_is_zero_def)
  then have "\<exists>i<length [0 :: ref]. divisor_is_zero zero_shares_heap [0] i" by simp
  with compute_metrics_zero_divisor[of zero_shares_heap "[0]"] z show ?thesis by simp
qed

text \<open>
  C3 as stated fails: a row with a negative \<open>low\<close>, a negative \<open>idx_low\<close> or a
  negative \<open>outstanding\<close> goes through without an exception.
\<close>

theorem negative_divisor_counterexample:
  "low (negative_low_heap 0) \<le> 0 \<and> snd (compute_metrics negative_low_heap [0]) = Inr () \<and>
   idx_low (negative_idx_low_heap 0) \<le> 0 \<and> snd (compute_metrics negative_idx_low_heap [0]) = Inr () \<and>
   outstanding (negative_shares_heap 0) \<le> 0 \<and> snd (compute_metrics negative_shares_heap [0]) = Inr ()"
  by (simp add: run_defs negative_low_heap_def negative_idx_low_heap_def negative_shares_heap_def day1_def)

text \<open>
  C4 as stated fails: after a normal return the input row itself is changed.
\<close>

theorem compute_metrics_mutates_input:
  "snd (compute_metrics example_heap [0]) = Inr () \<and>
   fst (compute_metrics example_heap [0]) 0 \<noteq> example_heap 0"
  by (simp add: run_defs example_heap_def day1_def)

text \<open>
  C4, as the code has it. \<open>compute_metrics\<close> returns no value and works in place: it
  changes no field that \<open>parse_row\<close> set, in any row; it leaves every row outside the
  list as it was; and after a normal return every row of the list carries its five
  derived keys. The list itself, its length and its order, is not touched.
\<close>

theorem compute_metrics_frame:
  "(\<forall>x. same_raw (fst (compute_metrics h rows) x) (h x)) \<and>
   (\<forall>x. x \<notin> set rows \<longrightarrow> fst (compute_metrics h rows) x = h x) \<and>
   (snd (compute_metrics h rows) = Inr () \<longrightarrow>
      (\<forall>x\<in>set rows. has_metrics (fst (compute_metrics h rows) x)))"
  unfolding compute_metrics_def
  by (intro conjI allI impI ballI loop_same_raw loop_frame loop_sets_metrics)

theorem compute_metrics_frame_witness:
  "snd (compute_metrics example_heap [0, 1]) = Inr () \<and> 1 \<in> set [0, 1 :: ref] \<and>
   has_metrics (fst (compute_metrics example_heap [0, 1]) 1) \<and>
   same_raw (fst (compute_metrics example_heap [0, 1]) 1) (example_heap 1) \<and>
   2 \<notin> set [0, 1 :: ref] \<and> fst (compute_metrics example_heap [0, 1]) 2 = example_heap 2"
proof -
  have ok: "snd (compute_metrics example_heap [0, 1]) = Inr ()"
    by (simp add: run_defs example_heap_def day1_def day2_def)
  have m: "1 \<in> set [0, 1 :: ref]" and n: "2 \<notin> set [0, 1 :: ref]" by simp_all
  from compute_metrics_frame[of example_heap "[0, 1]"] ok m n show ?thesis by blast
qed

lemma metrics_step_first:
  assumes "\<not> zero_divisor row None None"
  shows "\<exists>row'. metrics_step row None None = Inr row' \<and> price_change row' = Some 0 \<and>
           price_diff row' = Some 0"
  using assms
  by (simp add: metrics_step_def price_changes_def truediv_def bind_def zero_divisor_def Let_def)

text \<open>
  C6. For a non-empty list whose first row is not referenced again later in the list and
  whose own divisors \<open>low\<close>, \<open>idx_low\<close> and \<open>outstanding\<close> are not zero,
  \<open>price_change\<close> and \<open>idx_price_change\<close> of the first row are computed as exactly 0,
  and after the call (whether or not a later row raises) the first row holds
  \<open>price_change = 0\<close> and \<open>price_diff = 0\<close>, whatever its \<open>close\<close> is.
\<close>

theorem first_record_price_change_zero:
  assumes "r \<notin> set rest" "low (h r) \<noteq> 0" "idx_low (h r) \<noteq> 0" "outstanding (h r) \<noteq> 0"
  shows "price_changes (h r) None None = Inr (0, 0) \<and>
         price_change (fst (compute_metrics h (r # rest)) r) = Some 0 \<and>
         price_diff (fst (compute_metrics h (r # rest)) r) = Some 0"
proof -
  have "\<not> zero_divisor (h r) None None"
    using assms(2-4) by (simp add: zero_divisor_def)
  from metrics_step_first[OF this] obtain row' where
    st: "metrics_step (h r) None None = Inr row'" and
    z: "price_change row' = Some 0" "price_diff row' = Some 0" by blast
  let ?h = "h(r := row')"
  have "fst (compute_metrics h (r # rest)) r
      = fst (compute_metrics_loop ?h (Some (close row')) (Some (idx_close row')) rest) r"
    unfolding compute_metrics_def loop_step[where h=h and r=r, OF st] ..
  also have "\<dots> = ?h r" using assms(1) by (rule loop_frame)
  also have "\<dots> = row'" by simp
  finally have "fst (compute_metrics h (r # rest)) r = row'" .
  with z price_changes_first show ?thesis by simp
qed

theorem first_record_price_change_zero_witness:
  "0 \<notin> set [1 :: ref] \<and> low (example_heap 0) \<noteq> 0 \<and> idx_low (example_heap 0) \<noteq> 0 \<and>
   outstanding (example_heap 0) \<noteq> 0 \<and> close (example_heap 0) = 100 \<and>
   price_changes (example_heap 0) None None = Inr (0, 0) \<and>
   price_change (fst (compute_metrics example_heap [0, 1]) 0) = Some 0 \<and>
   price_diff (fst (compute_metrics example_heap [0, 1]) 0) = Some 0"
proof -
  have a: "0 \<notin> set [1 :: ref]" by simp
  have b: "low (example_heap 0) \<noteq> 0" "idx_low (example_heap 0) \<noteq> 0"
    "outstanding (example_heap 0) \<noteq> 0" "close (example_heap 0) = 100"
    by (simp_all add: example_heap_def day1_def)
  from first_record_price_change_zero[of 0 "[1]" example_heap, OF a b(1) b(2) b(3)] a b
  show ?thesis by simp
qed

section \<open>Properties of flag\_unusual\<close>

lemma flagged_unusual: "has_metrics row \<Longrightarrow> flagged row = Inr (unusual row)"
  by (auto simp: has_metrics_def flagged_def cond1_def cond2_def cond3_def derived_def bind_def
      unusual_def)

lemma flag_loop_map:
  "\<forall>r\<in>set rows. has_metrics (h r) \<Longrightarrow>
   flag_loop h rows flags = Inr (flags @ map (\<lambda>r. unusual (h r)) rows)"
  by (induction rows arbitrary: flags) (simp_all add: flagged_unusual)

text \<open>
  C2. On rows that carry their five derived keys, \<open>flag_unusual\<close> returns normally one
  boolean per row, in order, and the boolean of day \<open>i\<close> is true exactly when
  (amplitude > 9 and amplitude\_diff > 5 and volume >= 3000) or (price\_change > 6 and
  price\_diff > 4 and volume >= 3000) or (turnover > 10 and volume >= 3000), read on
  that day's row alone.
\<close>

theorem flag_unusual_per_day:
  assumes "\<forall>r\<in>set rows. has_metrics (h r)"
  shows "\<exists>flags. flag_unusual h rows = Inr flags \<and> length flags = length rows \<and>
           (\<forall>i<length rows. flags ! i = unusual (h (rows ! i)))"
  using flag_loop_map[OF assms, of "[]"] by (simp add: flag_unusual_def)

theorem flag_unusual_per_day_witness:
  "has_metrics (metrics_heap 0) \<and> has_metrics (metrics_heap 1) \<and>
   flag_unusual metrics_heap [0, 1] = Inr [False, True]"
proof -
  have m: "has_metrics (metrics_heap 0)" "has_metrics (metrics_heap 1)"
    by (simp_all add: metrics_heap_def has_metrics_def boundary_day_def floor_day_def)
  then have h: "\<forall>r\<in>set [0, 1]. has_metrics (metrics_heap r)"
    by simp
  from flag_unusual_per_day[OF h] obtain flags where
    f: "flag_unusual metrics_heap [0, 1] = Inr flags" "length flags = length [0, 1 :: ref]"
       "\<forall>i<length [0, 1 :: ref]. flags ! i = unusual (metrics_heap ([0, 1] ! i))"
    by blast
  from f(3) have "flags ! 0 = unusual (metrics_heap 0)" "flags ! 1 = unusual (metrics_heap 1)"
    by simp_all
  then have v: "flags ! 0 = False" "flags ! 1 = True"
    by (simp_all add: unusual_def metrics_heap_def boundary_day_def floor_day_def day1_def)
  from f(2) obtain a b where "flags = [a, b]"
    by (cases flags; cases "tl flags") auto
  with v have "flags = [False, True]" by simp
  with f(1) m show ?thesis by simp
qed

section \<open>Properties of fetch\_limit\_up\<close>

text \<open>
  C7, as the code has it. The \<open>except\<close> clause of line 26 names \<open>URLError\<close> only.
  When the request raises \<open>URLError\<close>, \<open>fetch_limit_up\<close> fails with the
  \<open>RuntimeError\<close> whose message is \<open>Failed to fetch data: \<close> followed by the error's
  text; when opening the URL or reading the body raises any other exception, that
  exception leaves \<open>fetch_limit_up\<close> as it is, not turned into a \<open>RuntimeError\<close>;
  when the payload is an object whose \<open>stat\<close> entry is absent or not the string
  \<open>OK\<close>, it fails with the \<open>RuntimeError\<close> whose message is \<open>API error: \<close> followed
  by that entry.
\<close>

theorem fetch_limit_up_errors:
  "(urlopen w (limit_up_url (case date_arg of None \<Rightarrow> today w | Some d \<Rightarrow> d)) = URLError e \<longrightarrow>
      fetch_limit_up w date_arg = Inl (RuntimeError (''Failed to fetch data: '' @ e))) \<and>
   (urlopen w (limit_up_url (case date_arg of None \<Rightarrow> today w | Some d \<Rightarrow> d)) = Raised x \<longrightarrow>
      fetch_limit_up w date_arg = Inl (Propagated x)) \<and>
   (urlopen w (limit_up_url (case date_arg of None \<Rightarrow> today w | Some d \<Rightarrow> d)) = Content c \<and>
    loads w c = Inr (PDict items) \<and> map_of items ''stat'' \<noteq> Some (PStr ''OK'') \<longrightarrow>
      fetch_limit_up w date_arg
        = Inl (RuntimeError (''API error: '' @
            str w (case map_of items ''stat'' of None \<Rightarrow> PNone | Some v \<Rightarrow> v))))"
proof (intro conjI impI)
  assume "urlopen w (limit_up_url (case date_arg of None \<Rightarrow> today w | Some d \<Rightarrow> d)) = URLError e"
  then show "fetch_limit_up w date_arg = Inl (RuntimeError (''Failed to fetch data: '' @ e))"
    by (simp add: fetch_limit_up_def)
next
  assume "urlopen w (limit_up_url (case date_arg of None \<Rightarrow> today w | Some d \<Rightarrow> d)) = Raised x"
  then show "fetch_limit_up w date_arg = Inl (Propagated x)"
    by (simp add: fetch_limit_up_def)
next
  assume "urlopen w (limit_up_url (case date_arg of None \<Rightarrow> today w | Some d \<Rightarrow> d)) = Content c \<and>
    loads w c = Inr (PDict items) \<and> map_of items ''stat'' \<noteq> Some (PStr ''OK'')"
  then show "fetch_limit_up w date_arg
        = Inl (RuntimeError (''API error: '' @
            str w (case map_of items ''stat'' of None \<Rightarrow> PNone | Some v \<Rightarrow> v)))"
    by (auto simp: fetch_limit_up_def bind_def py_get_def split: option.splits)
qed

theorem fetch_limit_up_errors_witness:
  "urlopen offline_world (limit_up_url (today offline_world)) = URLError ''<urlopen error timed out>'' \<and>
   fetch_limit_up offline_world None
     = Inl (RuntimeError ''Failed to fetch data: <urlopen error timed out>'') \<and>
   urlopen reset_world (limit_up_url (today reset_world)) = Raised ''ConnectionResetError'' \<and>
   fetch_limit_up reset_world None = Inl (Propagated ''ConnectionResetError'') \<and>
   urlopen holiday_world (limit_up_url ''20240101'') = Content ''payload'' \<and>
   loads holiday_world ''payload'' = Inr (PDict [(''stat'', PStr ''No data'')]) \<and>
   map_of [(''stat'', PStr ''No data'')] ''stat'' \<noteq> Some (PStr ''OK'') \<and>
   fetch_limit_up holiday_world (Some ''20240101'') = Inl (RuntimeError ''API error: No data'')"
proof -
  have a: "urlopen offline_world (limit_up_url (case None of None \<Rightarrow> today offline_world | Some d \<Rightarrow> d))
         = URLError ''<urlopen error timed out>''"
    by (simp add: offline_world_def)
  have k: "urlopen reset_world (limit_up_url (case None of None \<Rightarrow> today reset_world | Some d \<Rightarrow> d))
         = Raised ''ConnectionResetError''"
    by (simp add: reset_world_def)
  have b: "urlopen holiday_world (limit_up_url (case Some ''20240101'' of None \<Rightarrow> today holiday_world | Some d \<Rightarrow> d))
         = Content ''payload''"
    "loads holiday_world ''payload'' = Inr (PDict [(''stat'', PStr ''No data'')])"
    "map_of [(''stat'', PStr ''No data'')] ''stat'' \<noteq> Some (PStr ''OK'')"
    by (simp_all add: holiday_world_def offline_world_def)
  have s: "str holiday_world (PStr ''No data'') = ''No data''"
    by (simp add: holiday_world_def offline_world_def)
  from fetch_limit_up_errors[where w = offline_world and date_arg = None
      and e = "''<urlopen error timed out>''"] a
  have r1: "fetch_limit_up offline_world None
     = Inl (RuntimeError ''Failed to fetch data: <urlopen error timed out>'')" by simp
  from fetch_limit_up_errors[where w = reset_world and date_arg = None
      and x = "''ConnectionResetError''"] k
  have r3: "fetch_limit_up reset_world None = Inl (Propagated ''ConnectionResetError'')" by simp
  from fetch_limit_up_errors[where w = holiday_world and date_arg = "Some ''20240101''"
      and c = "''payload''" and items = "[(''stat'', PStr ''No data'')]"] b s
  have r2: "fetch_limit_up holiday_world (Some ''20240101'') = Inl (RuntimeError ''API error: No data'')"
    by simp
  from a k b r1 r2 r3 show ?thesis by simp
qed

text \<open>
  C7 as stated fails: when the connection is reset while the body is read, the call
  fails with that \<open>ConnectionResetError\<close> itself, not with the \<open>RuntimeError\<close> of a
  failed fetch.
\<close>

theorem fetch_limit_up_reset_counterexample:
  "urlopen reset_world (limit_up_url (today reset_world)) = Raised ''ConnectionResetError'' \<and>
   fetch_limit_up reset_world None = Inl (Propagated ''ConnectionResetError'') \<and>
   fetch_limit_up reset_world None
     \<noteq> Inl (RuntimeError ''Failed to fetch data: ConnectionResetError'')"
  by (simp add: fetch_limit_up_def reset_world_def offline_world_def)

end
